theory Spec2Isabelle
  imports Main
begin

section \<open>Data model of \<open>src/components/Game.jsx\<close>\<close>

text \<open>
  \<^verbatim>\<open>const COLORS = ['red', 'blue', 'green']\<close>,
  \<^verbatim>\<open>const GRID_SIZE = 7\<close>,
  \<^verbatim>\<open>const CENTER = Math.floor(GRID_SIZE / 2)\<close>.
\<close>

datatype color = Red | Blue | Green

definition GRID_SIZE :: nat where
  "GRID_SIZE = 7"

definition CENTER :: nat where
  "CENTER = GRID_SIZE div 2"

text \<open>
  The values a \<open>color\<close> slot can hold in JavaScript: a cell created by
  \<^verbatim>\<open>{ isEmpty: true }\<close> has no \<open>color\<close> property (\<open>Undefined\<close>),
  \<open>selectedColor\<close> starts as \<open>null\<close>, and a dot carries one of the strings of
  \<open>COLORS\<close>. On these values JavaScript's \<open>===\<close> is HOL equality.
\<close>

datatype jsval = Undefined | Null | Str color

record cell =
  color :: jsval
  isEmpty :: bool

text \<open>A position \<^verbatim>\<open>{ x, y }\<close>; the fields are called \<open>px\<close> and \<open>py\<close> here.\<close>

record pos =
  px :: int
  py :: int

datatype error = TypeError

text \<open>
  The component's state (the \<open>useState\<close> hooks), with the number of \<open>setTimeout\<close>
  callbacks that are scheduled and have not fired yet.
\<close>

record state =
  grid :: "cell list list"
  path :: "pos list"
  selectedColor :: jsval
  characterPos :: pos
  isDragging :: bool
  isAnimating :: bool
  animStep :: nat
  timers :: nat

section \<open>Grid access\<close>

text \<open>
  \<^verbatim>\<open>grid[y][x]\<close> followed by a property read: a missing row makes
  \<^verbatim>\<open>grid[y][x]\<close> throw, a missing column makes it \<open>undefined\<close> and the property
  read throws. Both are \<open>None\<close> here and a \<open>TypeError\<close> in the callers.
\<close>

definition cellAt :: "cell list list \<Rightarrow> nat \<Rightarrow> nat \<Rightarrow> cell option" where
  "cellAt g y x =
     (if y < length g then
        (if x < length (g ! y) then Some (g ! y ! x) else None)
      else None)"

definition cellAtPos :: "cell list list \<Rightarrow> pos \<Rightarrow> cell option" where
  "cellAtPos g p =
     (if px p < 0 \<or> py p < 0 then None else cellAt g (nat (py p)) (nat (px p)))"

text \<open>
  \<^verbatim>\<open>newGrid[y][x] = c\<close>. Every such write of the source goes to an index whose
  cell was read before in the same loop, so the write is in range whenever it is reached.
\<close>

definition setCell :: "cell list list \<Rightarrow> nat \<Rightarrow> nat \<Rightarrow> cell \<Rightarrow> cell list list" where
  "setCell g y x c = g[y := (g ! y)[x := c]]"

text \<open>\<^verbatim>\<open>newGrid[p.y][p.x].isEmpty = b\<close>\<close>

definition setIsEmpty :: "cell list list \<Rightarrow> pos \<Rightarrow> bool \<Rightarrow> error + cell list list" where
  "setIsEmpty g p b =
     (case cellAtPos g p of
        None \<Rightarrow> Inl TypeError
      | Some c \<Rightarrow> Inr (setCell g (nat (py p)) (nat (px p)) (c\<lparr>isEmpty := b\<rparr>)))"

section \<open>Initialisation\<close>

text \<open>
  \<open>initializeGrid\<close>. The random source is a parameter: \<open>rnd n\<close> is the colour of the
  \<open>n\<close>-th draw \<^verbatim>\<open>COLORS[Math.floor(Math.random() * COLORS.length)]\<close>; the rows are
  built one after the other, each from left to right.
\<close>

definition centerPos :: pos where
  "centerPos = \<lparr>px = int CENTER, py = int CENTER\<rparr>"

definition initialGrid :: "(nat \<Rightarrow> color) \<Rightarrow> cell list list" where
  "initialGrid rnd =
     map (\<lambda>y. map (\<lambda>x. \<lparr>color = Str (rnd (y * GRID_SIZE + x)), isEmpty = False\<rparr>)
                   [0..<GRID_SIZE])
         [0..<GRID_SIZE]"

definition initializeGrid :: "(nat \<Rightarrow> color) \<Rightarrow> state" where
  "initializeGrid rnd =
     \<lparr>grid = (let g = initialGrid rnd
              in setCell g CENTER CENTER ((g ! CENTER ! CENTER)\<lparr>isEmpty := True\<rparr>)),
      path = [centerPos],
      selectedColor = Null,
      characterPos = centerPos,
      isDragging = False,
      isAnimating = False,
      animStep = 0,
      timers = 0\<rparr>"

section \<open>Building a path\<close>

definition isAdjacent :: "pos \<Rightarrow> pos \<Rightarrow> bool" where
  "isAdjacent pos1 pos2 =
     (let dx = \<bar>px pos1 - px pos2\<bar>;
          dy = \<bar>py pos1 - py pos2\<bar>
      in (dx \<le> 1 \<and> dy \<le> 1) \<and> \<not> (dx = 0 \<and> dy = 0))"

text \<open>
  \<open>handleCellClick\<close>. \<^verbatim>\<open>path[path.length - 1]\<close> is read only under
  \<^verbatim>\<open>path.length > 0\<close>, so it is \<open>last\<close>.
\<close>

definition handleCellClick :: "state \<Rightarrow> int \<Rightarrow> int \<Rightarrow> error + state" where
  "handleCellClick s x y =
     (case cellAtPos (grid s) \<lparr>px = x, py = y\<rparr> of
        None \<Rightarrow> Inl TypeError
      | Some c \<Rightarrow>
          if isEmpty c \<or>
             (length (path s) > 0 \<and> \<not> isAdjacent (last (path s)) \<lparr>px = x, py = y\<rparr>)
          then Inr s
          else if length (path s) = 1 then
            (if isAdjacent (characterPos s) \<lparr>px = x, py = y\<rparr>
             then Inr (s\<lparr>path := path s @ [\<lparr>px = x, py = y\<rparr>], selectedColor := color c\<rparr>)
             else Inr s)
          else if color c = selectedColor s then
            (if \<not> list_ex (\<lambda>p. px p = x \<and> py p = y) (path s)
             then Inr (s\<lparr>path := path s @ [\<lparr>px = x, py = y\<rparr>]\<rparr>)
             else Inr s)
          else Inr s)"

definition confirmPath :: "state \<Rightarrow> state" where
  "confirmPath s =
     (if length (path s) = 1 \<or> isAnimating s then s
      else s\<lparr>isAnimating := True, animStep := 0\<rparr>)"

definition cancelPath :: "state \<Rightarrow> state" where
  "cancelPath s = s\<lparr>path := [characterPos s], selectedColor := Null\<rparr>"

section \<open>The commit at the end of the animation\<close>

text \<open>
  \<^verbatim>\<open>path.forEach(({ x, y }) => { newGrid[y][x].isEmpty = true })\<close>
\<close>

fun clearPath :: "pos list \<Rightarrow> cell list list \<Rightarrow> error + cell list list" where
  "clearPath [] g = Inr g"
| "clearPath (p # ps) g =
     (case setIsEmpty g p True of
        Inl e \<Rightarrow> Inl e
      | Inr g' \<Rightarrow> clearPath ps g')"

text \<open>
  Lines 72 to 77: the path's cells are cleared, then
  \<^verbatim>\<open>newGrid[characterPos.y][characterPos.x].isEmpty = false\<close>.
\<close>

definition commitPath :: "pos list \<Rightarrow> pos \<Rightarrow> cell list list \<Rightarrow> error + cell list list" where
  "commitPath ps cp g =
     (case clearPath ps g of
        Inl e \<Rightarrow> Inl e
      | Inr g' \<Rightarrow> setIsEmpty g' cp False)"

text \<open>
  The inner loop of "Make dots fall" for column \<open>x\<close>: \<open>ys\<close> are the rows still to
  visit (\<open>GRID_SIZE - 1\<close> down to \<open>0\<close>), \<open>es\<close> is \<open>emptySpaces\<close>.
  \<open>push\<close> appends, \<open>shift\<close> drops the head, \<open>unshift\<close> puts \<open>y\<close> in front.
\<close>

fun fallColumn ::
  "nat \<Rightarrow> nat list \<Rightarrow> cell list list \<Rightarrow> nat list \<Rightarrow> error + (cell list list \<times> nat list)" where
  "fallColumn x [] g es = Inr (g, es)"
| "fallColumn x (y # ys) g es =
     (case cellAt g y x of
        None \<Rightarrow> Inl TypeError
      | Some c \<Rightarrow>
          if isEmpty c then fallColumn x ys g (es @ [y])
          else (case es of
                  [] \<Rightarrow> fallColumn x ys g es
                | newY # rest \<Rightarrow>
                    fallColumn x ys
                      (setCell (setCell g newY x c) y x \<lparr>color = Undefined, isEmpty = True\<rparr>)
                      (y # rest)))"

text \<open>
  "Fill empty spaces at the top with new dots": \<open>emptySpaces.forEach\<close>; \<open>n\<close> counts
  the random draws made so far.
\<close>

fun fillColumn ::
  "(nat \<Rightarrow> color) \<Rightarrow> nat \<Rightarrow> nat list \<Rightarrow> cell list list \<Rightarrow> nat \<Rightarrow> cell list list \<times> nat" where
  "fillColumn rnd x [] g n = (g, n)"
| "fillColumn rnd x (y # ys) g n =
     fillColumn rnd x ys (setCell g y x \<lparr>color = Str (rnd n), isEmpty = False\<rparr>) (Suc n)"

text \<open>The outer loop over the columns \<open>xs\<close>.\<close>

fun cascadeColumns ::
  "(nat \<Rightarrow> color) \<Rightarrow> nat list \<Rightarrow> cell list list \<Rightarrow> nat \<Rightarrow> error + cell list list" where
  "cascadeColumns rnd [] g n = Inr g"
| "cascadeColumns rnd (x # xs) g n =
     (case fallColumn x (rev [0..<GRID_SIZE]) g [] of
        Inl e \<Rightarrow> Inl e
      | Inr (g1, es) \<Rightarrow>
          (case fillColumn rnd x es g1 n of
             (g2, n') \<Rightarrow> cascadeColumns rnd xs g2 n'))"

definition cascade :: "(nat \<Rightarrow> color) \<Rightarrow> cell list list \<Rightarrow> error + cell list list" where
  "cascade rnd g = cascadeColumns rnd [0..<GRID_SIZE] g 0"

text \<open>
  The body of the animation effect (lines 68 to 114). In the walking branch the character
  is moved to \<open>path[animStep]\<close> and one timer is scheduled.
\<close>

definition animationEffect :: "(nat \<Rightarrow> color) \<Rightarrow> state \<Rightarrow> error + state" where
  "animationEffect rnd s =
     (if \<not> isAnimating s \<or> length (path s) = 1 then Inr s
      else if animStep s \<ge> length (path s) then
        (case commitPath (path s) (characterPos s) (grid s) of
           Inl e \<Rightarrow> Inl e
         | Inr g1 \<Rightarrow>
             (case cascade rnd g1 of
                Inl e \<Rightarrow> Inl e
              | Inr g2 \<Rightarrow>
                  Inr (s\<lparr>grid := g2, path := [characterPos s], selectedColor := Null,
                         isAnimating := False, animStep := 0\<rparr>)))
      else Inr (s\<lparr>characterPos := path s ! animStep s, timers := Suc (timers s)\<rparr>))"

section \<open>Events\<close>

text \<open>
  The events the rendered component can receive. A cell event carries the \<open>x\<close> and
  \<open>y\<close> of the cell it is attached to; \<open>GridTouchMove\<close> carries the cell under the
  finger, read from \<open>data-xy\<close>.
\<close>

datatype event =
    CellClick int int
  | CellMouseDown int int
  | CellMouseEnter int int
  | CellTouchStart int int
  | GridTouchMove int int
  | MouseUp
  | TouchEnd
  | GridMouseLeave
  | ConfirmClick
  | CancelClick
  | TimerFired

definition handleCellMouseDown :: "state \<Rightarrow> int \<Rightarrow> int \<Rightarrow> error + state" where
  "handleCellMouseDown s x y =
     (case handleCellClick s x y of
        Inl e \<Rightarrow> Inl e
      | Inr s' \<Rightarrow> Inr (s'\<lparr>isDragging := True\<rparr>))"

definition handleCellMouseEnter :: "state \<Rightarrow> int \<Rightarrow> int \<Rightarrow> error + state" where
  "handleCellMouseEnter s x y = (if isDragging s then handleCellClick s x y else Inr s)"

definition handleCellTouchStart :: "state \<Rightarrow> int \<Rightarrow> int \<Rightarrow> error + state" where
  "handleCellTouchStart s x y =
     (case handleCellClick s x y of
        Inl e \<Rightarrow> Inl e
      | Inr s' \<Rightarrow> Inr (s'\<lparr>isDragging := True\<rparr>))"

definition handleCellTouchMove :: "state \<Rightarrow> int \<Rightarrow> int \<Rightarrow> error + state" where
  "handleCellTouchMove s x y = (if \<not> isDragging s then Inr s else handleCellClick s x y)"

definition handleMouseUp :: "state \<Rightarrow> state" where
  "handleMouseUp s = s\<lparr>isDragging := False\<rparr>"

definition handleTouchEnd :: "state \<Rightarrow> state" where
  "handleTouchEnd s = s\<lparr>isDragging := False\<rparr>"

text \<open>
  The handler an event runs, with the guards of the JSX: the four cell handlers are
  wrapped in \<^verbatim>\<open>!isAnimating && ...\<close>, \<open>onTouchMove\<close> is not, and the two buttons
  are rendered only under \<^verbatim>\<open>path.length > 0 && !isAnimating\<close>. The timer's callback
  is \<^verbatim>\<open>setAnimStep(s => s + 1)\<close>.
\<close>

fun dispatch :: "event \<Rightarrow> state \<Rightarrow> error + state" where
  "dispatch (CellClick x y) s = (if isAnimating s then Inr s else handleCellClick s x y)"
| "dispatch (CellMouseDown x y) s = (if isAnimating s then Inr s else handleCellMouseDown s x y)"
| "dispatch (CellMouseEnter x y) s = (if isAnimating s then Inr s else handleCellMouseEnter s x y)"
| "dispatch (CellTouchStart x y) s = (if isAnimating s then Inr s else handleCellTouchStart s x y)"
| "dispatch (GridTouchMove x y) s = handleCellTouchMove s x y"
| "dispatch MouseUp s = Inr (handleMouseUp s)"
| "dispatch TouchEnd s = Inr (handleTouchEnd s)"
| "dispatch GridMouseLeave s = Inr (handleMouseUp s)"
| "dispatch ConfirmClick s =
     (if length (path s) > 0 \<and> \<not> isAnimating s then Inr (confirmPath s) else Inr s)"
| "dispatch CancelClick s =
     (if length (path s) > 0 \<and> \<not> isAnimating s then Inr (cancelPath s) else Inr s)"
| "dispatch TimerFired s =
     (if timers s > 0 then Inr (s\<lparr>animStep := Suc (animStep s), timers := timers s - 1\<rparr>)
      else Inr s)"

text \<open>
  One event: its handler, then, when one of the effect's dependencies
  \<^verbatim>\<open>[isAnimating, animStep, path, grid]\<close> has changed, the animation effect on the
  new state. (After the effect's own updates the effect either does not run again or
  returns at once, since it leaves the animation or changes no dependency.)
\<close>

definition deps :: "state \<Rightarrow> bool \<times> nat \<times> pos list \<times> cell list list" where
  "deps s = (isAnimating s, animStep s, path s, grid s)"

definition step :: "(nat \<Rightarrow> color) \<Rightarrow> event \<Rightarrow> state \<Rightarrow> error + state" where
  "step rnd ev s =
     (case dispatch ev s of
        Inl e \<Rightarrow> Inl e
      | Inr s' \<Rightarrow> if deps s' \<noteq> deps s then animationEffect rnd s' else Inr s')"

fun run :: "(nat \<Rightarrow> color) \<Rightarrow> event list \<Rightarrow> state \<Rightarrow> error + state" where
  "run rnd [] s = Inr s"
| "run rnd (ev # evs) s =
     (case step rnd ev s of
        Inl e \<Rightarrow> Inl e
      | Inr s' \<Rightarrow> run rnd evs s')"

text \<open>The states the game can be in: after \<open>initializeGrid\<close> and any events.\<close>

inductive reachable :: "state \<Rightarrow> bool" where
  init: "reachable (initializeGrid rnd)"
| step: "reachable s \<Longrightarrow> step rnd ev s = Inr s' \<Longrightarrow> reachable s'"

section \<open>Predicates used in the statements\<close>

text \<open>The grid has \<open>GRID_SIZE\<close> rows of \<open>GRID_SIZE\<close> cells.\<close>

definition wfGrid :: "cell list list \<Rightarrow> bool" where
  "wfGrid g = (length g = GRID_SIZE \<and> list_all (\<lambda>row. length row = GRID_SIZE) g)"

text \<open>A position that names a cell of the grid.\<close>

definition inGrid :: "pos \<Rightarrow> bool" where
  "inGrid p = (0 \<le> px p \<and> px p < int GRID_SIZE \<and> 0 \<le> py p \<and> py p < int GRID_SIZE)"

text \<open>A colour value that is one of the strings of \<open>COLORS\<close>.\<close>

definition isStr :: "jsval \<Rightarrow> bool" where
  "isStr v = (case v of Str k \<Rightarrow> True | _ \<Rightarrow> False)"

text \<open>Every dot has a colour; every cell has one; no cell is empty.\<close>

definition dotsColoured :: "cell list list \<Rightarrow> bool" where
  "dotsColoured g = list_all (list_all (\<lambda>c. isEmpty c \<or> isStr (color c))) g"

definition allColoured :: "cell list list \<Rightarrow> bool" where
  "allColoured g = list_all (list_all (\<lambda>c. isStr (color c))) g"

definition noEmptyCell :: "cell list list \<Rightarrow> bool" where
  "noEmptyCell g = list_all (list_all (\<lambda>c. \<not> isEmpty c)) g"

text \<open>Column \<open>x\<close> from top to bottom, and the number of dots in it.\<close>

definition column :: "cell list list \<Rightarrow> nat \<Rightarrow> cell list" where
  "column g x = map (\<lambda>row. row ! x) g"

definition columnFull :: "cell list list \<Rightarrow> nat \<Rightarrow> bool" where
  "columnFull g x = list_all (\<lambda>c. \<not> isEmpty c) (column g x)"

definition dotsInColumn :: "cell list list \<Rightarrow> nat \<Rightarrow> nat" where
  "dotsInColumn g x = length (filter (\<lambda>c. \<not> isEmpty c) (column g x))"

text \<open>The grids agree outside column \<open>x\<close>.\<close>

definition sameElsewhere :: "nat \<Rightarrow> cell list list \<Rightarrow> cell list list \<Rightarrow> bool" where
  "sameElsewhere x g g' = (\<forall>y<GRID_SIZE. \<forall>x'<GRID_SIZE. x' \<noteq> x \<longrightarrow> g' ! y ! x' = g ! y ! x')"

text \<open>The cell at a position exists and is empty, or exists and holds a dot.\<close>

definition emptyAt :: "cell list list \<Rightarrow> pos \<Rightarrow> bool" where
  "emptyAt g p = (case cellAtPos g p of None \<Rightarrow> False | Some c \<Rightarrow> isEmpty c)"

definition dotAt :: "cell list list \<Rightarrow> pos \<Rightarrow> bool" where
  "dotAt g p = (case cellAtPos g p of None \<Rightarrow> False | Some c \<Rightarrow> \<not> isEmpty c)"

text \<open>The position of row \<open>y\<close> and column \<open>x\<close>.\<close>

definition posOf :: "nat \<Rightarrow> nat \<Rightarrow> pos" where
  "posOf y x = \<lparr>px = int x, py = int y\<rparr>"

section \<open>The invariant of the reachable states\<close>

text \<open>
  What every state keeps about the grid and the path: the grid is complete and every cell
  has a colour; the path is not empty, repeats no position and stays inside the grid; out
  of an animation it starts at the character; every element after the first lies on a cell
  of the selected colour; and the selected colour is \<open>null\<close> exactly when the path has
  one element.
\<close>

definition pathInv :: "state \<Rightarrow> bool" where
  "pathInv s =
     (wfGrid (grid s) \<and> allColoured (grid s)
      \<and> path s \<noteq> [] \<and> distinct (path s)
      \<and> list_all inGrid (path s) \<and> inGrid (characterPos s)
      \<and> (isAnimating s \<or> hd (path s) = characterPos s)
      \<and> list_all (\<lambda>p. map_option color (cellAtPos (grid s) p) = Some (selectedColor s)) (tl (path s))
      \<and> ((selectedColor s = Null) = (length (path s) = 1)))"

text \<open>During an animation the character stands on \<open>path[animStep]\<close>.\<close>

definition walkInv :: "state \<Rightarrow> bool" where
  "walkInv s =
     (isAnimating s \<longrightarrow>
        1 < length (path s) \<and> animStep s < length (path s)
        \<and> characterPos s = path s ! animStep s)"

definition stateInv :: "state \<Rightarrow> bool" where
  "stateInv s = (pathInv s \<and> walkInv s)"



section \<open>Example inputs\<close>

text \<open>
  Random sources: every draw red; the first and the last row blue, the second row green,
  the rest red.
\<close>

definition allRed :: "nat \<Rightarrow> color" where
  "allRed n = Red"

definition stripes :: "nat \<Rightarrow> color" where
  "stripes n =
     (if n < GRID_SIZE \<or> 6 * GRID_SIZE \<le> n then Blue
      else if n < 2 * GRID_SIZE then Green
      else Red)"

text \<open>
  A game on the striped grid: the player selects the two cells below the centre
  (\<open>pathBuilt\<close>) and confirms (\<open>confirmed\<close>), and two timers fire
  (\<open>walkedDown\<close>); the character then stands on the path's last cell and the next timer
  will commit.
\<close>

definition pathBuilt :: state where
  "pathBuilt = projr (run stripes [CellClick 3 4, CellClick 3 5] (initializeGrid stripes))"


definition walkDown :: "event list" where
  "walkDown = [CellClick 3 4, CellClick 3 5, ConfirmClick, TimerFired, TimerFired]"

definition walkedDown :: state where
  "walkedDown = projr (run stripes walkDown (initializeGrid stripes))"

text \<open>The grid of that game after lines 72 to 77, and the state after the whole commit.\<close>

definition clearedGrid :: "cell list list" where
  "clearedGrid = projr (commitPath (path walkedDown) (characterPos walkedDown) (grid walkedDown))"

definition committed :: state where
  "committed = projr (step allRed TimerFired walkedDown)"

text \<open>
  A drag that is still going on when Confirm is activated: a finger goes down on the cell
  below the centre and stays there while the Confirm button is activated from the keyboard.
\<close>

definition dragged :: state where
  "dragged = projr (run stripes [CellTouchStart 3 4, ConfirmClick] (initializeGrid stripes))"

text \<open>The grid of the example game after the fall of column 3, before its refill.\<close>

definition fallenGrid :: "cell list list" where
  "fallenGrid = fst (projr (fallColumn 3 (rev [0..<GRID_SIZE]) clearedGrid []))"

section \<open>Adjacency\<close>

text \<open>
  C9: \<open>isAdjacent p q\<close> holds exactly when the Chebyshev distance
  \<open>max |p.x - q.x| |p.y - q.y|\<close> is 1; it is symmetric, and no position is adjacent
  to itself.
\<close>

theorem isAdjacent_chebyshev:
  "isAdjacent p q = (max \<bar>px p - px q\<bar> \<bar>py p - py q\<bar> = 1)
   \<and> isAdjacent p q = isAdjacent q p
   \<and> \<not> isAdjacent p p"
  by (auto simp: isAdjacent_def Let_def max_def abs_minus_commute)

section \<open>Basic facts about the grid\<close>

lemma wfGrid_row: "wfGrid g \<Longrightarrow> y < GRID_SIZE \<Longrightarrow> length (g ! y) = GRID_SIZE"
  by (simp add: wfGrid_def list_all_length)

lemma wfGrid_setCell: "wfGrid g \<Longrightarrow> wfGrid (setCell g y x c)"
  by (cases "y < length g")
     (auto simp: wfGrid_def setCell_def list_all_length nth_list_update)

lemma nth_setCell:
  "wfGrid g \<Longrightarrow> y < GRID_SIZE \<Longrightarrow> x < GRID_SIZE \<Longrightarrow>
   setCell g y x c ! y' ! x' = (if y' = y \<and> x' = x then c else g ! y' ! x')"
  by (auto simp: setCell_def wfGrid_def list_all_length nth_list_update)

lemma cellAt_wf:
  "wfGrid g \<Longrightarrow> y < GRID_SIZE \<Longrightarrow> x < GRID_SIZE \<Longrightarrow> cellAt g y x = Some (g ! y ! x)"
  by (simp add: cellAt_def wfGrid_def list_all_length)

lemma wfGrid_initializeGrid: "wfGrid (grid (initializeGrid rnd))"
proof -
  have "wfGrid (initialGrid rnd)"
    by (simp add: wfGrid_def initialGrid_def list_all_iff)
  then show ?thesis
    by (simp add: initializeGrid_def Let_def wfGrid_setCell)
qed

section \<open>Cell intents\<close>

lemma pos_in_path: "list_ex (\<lambda>p. px p = x \<and> py p = y) ps = (\<lparr>px = x, py = y\<rparr> \<in> set ps)"
  by (induction ps) auto

lemma not_isAdjacent_self: "\<not> isAdjacent p p"
  by (simp add: isAdjacent_def)

text \<open>
  C10: on a \<open>GRID_SIZE \<times> GRID_SIZE\<close> grid, \<open>handleCellClick\<close> with \<open>0 \<le> x, y < GRID_SIZE\<close>
  reads only inside the grid and returns a state; with \<open>x\<close> or \<open>y\<close> outside that range the
  read \<open>grid[y][x]\<close> is out of bounds and the call ends in a \<open>TypeError\<close> instead of
  returning the state unchanged.
\<close>

theorem handleCellClick_bounds:
  assumes "wfGrid (grid s)"
  shows "(0 \<le> x \<and> x < int GRID_SIZE \<and> 0 \<le> y \<and> y < int GRID_SIZE
            \<longrightarrow> (\<exists>s'. handleCellClick s x y = Inr s'))
       \<and> (\<not> (0 \<le> x \<and> x < int GRID_SIZE \<and> 0 \<le> y \<and> y < int GRID_SIZE)
            \<longrightarrow> handleCellClick s x y = Inl TypeError)"
  using assms
  by (auto simp: handleCellClick_def cellAtPos_def cellAt_def wfGrid_def list_all_iff Let_def)

theorem handleCellClick_bounds_witness:
  "wfGrid (grid (initializeGrid (\<lambda>n. Red)))
   \<and> (\<exists>s'. handleCellClick (initializeGrid (\<lambda>n. Red)) 3 2 = Inr s')
   \<and> handleCellClick (initializeGrid (\<lambda>n. Red)) 7 2 = Inl TypeError
   \<and> handleCellClick (initializeGrid (\<lambda>n. Red)) 3 (- 1) = Inl TypeError"
  using handleCellClick_bounds [OF wfGrid_initializeGrid, of 3 2 "\<lambda>n. Red"]
        handleCellClick_bounds [OF wfGrid_initializeGrid, of 7 2 "\<lambda>n. Red"]
        handleCellClick_bounds [OF wfGrid_initializeGrid, of 3 "- 1" "\<lambda>n. Red"]
  by (simp add: wfGrid_initializeGrid GRID_SIZE_def)

text \<open>
  C8: a cell intent on an existing cell that is empty, or not adjacent to the path's last
  element, or (once a colour is locked, that is with more than the anchor in the path) of
  another colour than \<open>selectedColor\<close>, or already in the path, returns the input state
  and no error; so does a confirm when the path has length 1.
\<close>

theorem rejected_intent_noop:
  assumes "cellAtPos (grid s) \<lparr>px = x, py = y\<rparr> = Some c"
  shows "(isEmpty c \<longrightarrow> handleCellClick s x y = Inr s)
       \<and> (path s \<noteq> [] \<and> \<not> isAdjacent (last (path s)) \<lparr>px = x, py = y\<rparr>
            \<longrightarrow> handleCellClick s x y = Inr s)
       \<and> (1 < length (path s) \<and> color c \<noteq> selectedColor s \<longrightarrow> handleCellClick s x y = Inr s)
       \<and> (\<lparr>px = x, py = y\<rparr> \<in> set (path s) \<longrightarrow> handleCellClick s x y = Inr s)
       \<and> (length (path s) = 1 \<longrightarrow> confirmPath s = s \<and> dispatch ConfirmClick s = Inr s)"
proof -
  have dup: "handleCellClick s x y = Inr s" if "\<lparr>px = x, py = y\<rparr> \<in> set (path s)"
  proof (cases "length (path s) = 1")
    case True
    then obtain p where p: "path s = [p]" by (cases "path s") auto
    with that have "last (path s) = \<lparr>px = x, py = y\<rparr>" by simp
    then show ?thesis
      using assms p by (simp add: handleCellClick_def not_isAdjacent_self)
  next
    case False
    then show ?thesis
      using assms that by (simp add: handleCellClick_def pos_in_path)
  qed
  show ?thesis
    using assms dup by (auto simp: handleCellClick_def confirmPath_def)
qed

theorem rejected_intent_noop_witness:
  "cellAtPos (grid (initializeGrid stripes)) \<lparr>px = 3, py = 3\<rparr> = Some \<lparr>color = Str Red, isEmpty = True\<rparr>
   \<and> handleCellClick (initializeGrid stripes) 3 3 = Inr (initializeGrid stripes)
   \<and> cellAtPos (grid (initializeGrid stripes)) \<lparr>px = 0, py = 0\<rparr> = Some \<lparr>color = Str Blue, isEmpty = False\<rparr>
   \<and> handleCellClick (initializeGrid stripes) 0 0 = Inr (initializeGrid stripes)
   \<and> cellAtPos (grid pathBuilt) \<lparr>px = 3, py = 6\<rparr> = Some \<lparr>color = Str Blue, isEmpty = False\<rparr>
   \<and> selectedColor pathBuilt = Str Red
   \<and> handleCellClick pathBuilt 3 6 = Inr pathBuilt
   \<and> cellAtPos (grid pathBuilt) \<lparr>px = 3, py = 4\<rparr> = Some \<lparr>color = Str Red, isEmpty = False\<rparr>
   \<and> handleCellClick pathBuilt 3 4 = Inr pathBuilt
   \<and> confirmPath (initializeGrid stripes) = initializeGrid stripes"
proof -
  have c1: "cellAtPos (grid (initializeGrid stripes)) \<lparr>px = 3, py = 3\<rparr> = Some \<lparr>color = Str Red, isEmpty = True\<rparr>"
    by code_simp
  have c2: "cellAtPos (grid (initializeGrid stripes)) \<lparr>px = 0, py = 0\<rparr> = Some \<lparr>color = Str Blue, isEmpty = False\<rparr>"
    by code_simp
  have c3: "cellAtPos (grid pathBuilt) \<lparr>px = 3, py = 6\<rparr> = Some \<lparr>color = Str Blue, isEmpty = False\<rparr>"
    by code_simp
  have c4: "cellAtPos (grid pathBuilt) \<lparr>px = 3, py = 4\<rparr> = Some \<lparr>color = Str Red, isEmpty = False\<rparr>"
    by code_simp
  have p1: "path (initializeGrid stripes) = [\<lparr>px = 3, py = 3\<rparr>]" by code_simp
  have p3: "path pathBuilt = [\<lparr>px = 3, py = 3\<rparr>, \<lparr>px = 3, py = 4\<rparr>, \<lparr>px = 3, py = 5\<rparr>]"
    by code_simp
  have s3: "selectedColor pathBuilt = Str Red" by code_simp
  have n2: "\<not> isAdjacent \<lparr>px = 3, py = 3\<rparr> \<lparr>px = 0, py = 0\<rparr>" by (simp add: isAdjacent_def)
  show ?thesis
    using rejected_intent_noop[OF c1] rejected_intent_noop[OF c2] rejected_intent_noop[OF c3]
      rejected_intent_noop[OF c4] c1 c2 c3 c4 p1 p3 s3 n2
    by simp
qed

section \<open>The cascade fills every column\<close>

lemma grid_all_iff:
  "wfGrid g \<Longrightarrow> list_all (list_all P) g = (\<forall>y<GRID_SIZE. \<forall>x<GRID_SIZE. P (g ! y ! x))"
  by (simp add: wfGrid_def list_all_length)

lemma dotsColoured_iff:
  "wfGrid g \<Longrightarrow>
   dotsColoured g = (\<forall>y<GRID_SIZE. \<forall>x<GRID_SIZE. isEmpty (g ! y ! x) \<or> isStr (color (g ! y ! x)))"
  by (simp add: dotsColoured_def grid_all_iff)

lemma allColoured_iff:
  "wfGrid g \<Longrightarrow> allColoured g = (\<forall>y<GRID_SIZE. \<forall>x<GRID_SIZE. isStr (color (g ! y ! x)))"
  by (simp add: allColoured_def grid_all_iff)

lemma noEmptyCell_iff:
  "wfGrid g \<Longrightarrow> noEmptyCell g = (\<forall>y<GRID_SIZE. \<forall>x<GRID_SIZE. \<not> isEmpty (g ! y ! x))"
  by (simp add: noEmptyCell_def grid_all_iff)

lemma columnFull_iff: "wfGrid g \<Longrightarrow> columnFull g x = (\<forall>y<GRID_SIZE. \<not> isEmpty (g ! y ! x))"
  by (simp add: columnFull_def column_def wfGrid_def list_all_length)

lemma fallColumn_inv:
  assumes "wfGrid g" "x < GRID_SIZE" "set ys \<subseteq> {..<GRID_SIZE}" "set es \<subseteq> {..<GRID_SIZE}"
    and "\<forall>y<GRID_SIZE. y \<notin> set ys \<longrightarrow> isEmpty (g ! y ! x) \<longrightarrow> y \<in> set es"
  shows "\<exists>g' es'. fallColumn x ys g es = Inr (g', es') \<and> wfGrid g' \<and> set es' \<subseteq> {..<GRID_SIZE}
           \<and> (dotsColoured g \<longrightarrow> dotsColoured g') \<and> sameElsewhere x g g'
           \<and> (\<forall>y<GRID_SIZE. isEmpty (g' ! y ! x) \<longrightarrow> y \<in> set es')"
  using assms
proof (induction ys arbitrary: g es)
  case Nil
  then show ?case by (simp add: sameElsewhere_def)
next
  case (Cons y ys)
  have y: "y < GRID_SIZE" using Cons.prems(3) by simp
  have cell: "cellAt g y x = Some (g ! y ! x)"
    using Cons.prems(1,2) y by (simp add: cellAt_wf)
  show ?case
  proof (cases "isEmpty (g ! y ! x)")
    case True
    have "\<exists>g' es'. fallColumn x ys g (es @ [y]) = Inr (g', es') \<and> wfGrid g' \<and> set es' \<subseteq> {..<GRID_SIZE}
           \<and> (dotsColoured g \<longrightarrow> dotsColoured g') \<and> sameElsewhere x g g'
           \<and> (\<forall>y<GRID_SIZE. isEmpty (g' ! y ! x) \<longrightarrow> y \<in> set es')"
      using Cons.prems y by (intro Cons.IH) auto
    then show ?thesis using cell True by simp
  next
    case False
    show ?thesis
    proof (cases es)
      case Nil
      have "\<exists>g' es'. fallColumn x ys g es = Inr (g', es') \<and> wfGrid g' \<and> set es' \<subseteq> {..<GRID_SIZE}
           \<and> (dotsColoured g \<longrightarrow> dotsColoured g') \<and> sameElsewhere x g g'
           \<and> (\<forall>y<GRID_SIZE. isEmpty (g' ! y ! x) \<longrightarrow> y \<in> set es')"
        using Cons.prems y False by (intro Cons.IH) auto
      then show ?thesis using cell False Nil by simp
    next
      case (Cons newY rest)
      define g1 where "g1 = setCell (setCell g newY x (g ! y ! x)) y x \<lparr>color = Undefined, isEmpty = True\<rparr>"
      have newY: "newY < GRID_SIZE" using Cons.prems(4) Cons by simp
      have wf1: "wfGrid g1" using Cons.prems(1) by (simp add: g1_def wfGrid_setCell)
      have nth1: "g1 ! y' ! x' =
          (if y' = y \<and> x' = x then \<lparr>color = Undefined, isEmpty = True\<rparr>
           else if y' = newY \<and> x' = x then g ! y ! x else g ! y' ! x')" for y' x'
        using Cons.prems(1,2) y newY by (simp add: g1_def nth_setCell wfGrid_setCell)
      have col1: "dotsColoured g \<longrightarrow> dotsColoured g1"
        using False y Cons.prems(1,2) wf1 by (auto simp: dotsColoured_iff nth1)
      have emp1: "\<forall>y'<GRID_SIZE. y' \<notin> set ys \<longrightarrow> isEmpty (g1 ! y' ! x) \<longrightarrow> y' \<in> set (y # rest)"
        using Cons.prems(5) False Cons by (auto simp: nth1)
      have "\<exists>g' es'. fallColumn x ys g1 (y # rest) = Inr (g', es') \<and> wfGrid g' \<and> set es' \<subseteq> {..<GRID_SIZE}
           \<and> (dotsColoured g1 \<longrightarrow> dotsColoured g') \<and> sameElsewhere x g1 g'
           \<and> (\<forall>y<GRID_SIZE. isEmpty (g' ! y ! x) \<longrightarrow> y \<in> set es')"
        using wf1 Cons.prems(2,3,4) y emp1 Cons by (intro Cons.IH) auto
      moreover have "sameElsewhere x g1 g' \<Longrightarrow> sameElsewhere x g g'" for g'
        by (simp add: sameElsewhere_def nth1)
      ultimately show ?thesis using cell False Cons col1 by (auto simp: g1_def)
    qed
  qed
qed

lemma fillColumn_inv:
  assumes "wfGrid g" "x < GRID_SIZE" "set es \<subseteq> {..<GRID_SIZE}"
    and "\<forall>y<GRID_SIZE. isEmpty (g ! y ! x) \<longrightarrow> y \<in> set es"
  shows "\<exists>g' n'. fillColumn rnd x es g n = (g', n') \<and> wfGrid g'
           \<and> (dotsColoured g \<longrightarrow> dotsColoured g')
           \<and> sameElsewhere x g g' \<and> columnFull g' x"
  using assms
proof (induction es arbitrary: g n)
  case Nil
  then show ?case by (simp add: sameElsewhere_def columnFull_iff)
next
  case (Cons y es)
  define g1 where "g1 = setCell g y x \<lparr>color = Str (rnd n), isEmpty = False\<rparr>"
  have y: "y < GRID_SIZE" using Cons.prems(3) by simp
  have wf1: "wfGrid g1" using Cons.prems(1) by (simp add: g1_def wfGrid_setCell)
  have nth1: "g1 ! y' ! x' =
      (if y' = y \<and> x' = x then \<lparr>color = Str (rnd n), isEmpty = False\<rparr> else g ! y' ! x')" for y' x'
    using Cons.prems(1,2) y by (simp add: g1_def nth_setCell)
  have col1: "dotsColoured g \<longrightarrow> dotsColoured g1"
    using Cons.prems(1) wf1 by (auto simp: dotsColoured_iff nth1 isStr_def)
  have emp1: "\<forall>y'<GRID_SIZE. isEmpty (g1 ! y' ! x) \<longrightarrow> y' \<in> set es"
    using Cons.prems(4) by (auto simp: nth1)
  have "\<exists>g' n'. fillColumn rnd x es g1 (Suc n) = (g', n') \<and> wfGrid g'
           \<and> (dotsColoured g1 \<longrightarrow> dotsColoured g')
           \<and> sameElsewhere x g1 g' \<and> columnFull g' x"
    using wf1 Cons.prems(2,3) emp1 by (intro Cons.IH) auto
  moreover have "sameElsewhere x g1 g' \<Longrightarrow> sameElsewhere x g g'" for g'
    by (simp add: sameElsewhere_def nth1)
  ultimately show ?case using col1 by (auto simp: g1_def)
qed

lemma cascadeColumns_inv:
  assumes "wfGrid g" "set xs \<subseteq> {..<GRID_SIZE}"
    and "\<forall>x<GRID_SIZE. x \<notin> set xs \<longrightarrow> columnFull g x"
  shows "\<exists>g'. cascadeColumns rnd xs g n = Inr g' \<and> wfGrid g'
           \<and> (dotsColoured g \<longrightarrow> dotsColoured g')
           \<and> (\<forall>x<GRID_SIZE. columnFull g' x)"
  using assms
proof (induction xs arbitrary: g n)
  case Nil
  then show ?case by simp
next
  case (Cons x xs)
  have x: "x < GRID_SIZE" using Cons.prems(2) by simp
  have "\<exists>g' es'. fallColumn x (rev [0..<GRID_SIZE]) g [] = Inr (g', es') \<and> wfGrid g'
           \<and> set es' \<subseteq> {..<GRID_SIZE} \<and> (dotsColoured g \<longrightarrow> dotsColoured g')
           \<and> sameElsewhere x g g'
           \<and> (\<forall>y<GRID_SIZE. isEmpty (g' ! y ! x) \<longrightarrow> y \<in> set es')"
    using Cons.prems(1) x by (intro fallColumn_inv) auto
  then obtain g1 es where fall: "fallColumn x (rev [0..<GRID_SIZE]) g [] = Inr (g1, es)"
    and wf1: "wfGrid g1" and es: "set es \<subseteq> {..<GRID_SIZE}"
    and col1: "dotsColoured g \<longrightarrow> dotsColoured g1"
    and same1: "sameElsewhere x g g1"
    and emp1: "\<forall>y<GRID_SIZE. isEmpty (g1 ! y ! x) \<longrightarrow> y \<in> set es"
    by blast
  obtain g2 n' where fill: "fillColumn rnd x es g1 n = (g2, n')"
    and wf2: "wfGrid g2" and col2: "dotsColoured g1 \<longrightarrow> dotsColoured g2"
    and same2: "sameElsewhere x g1 g2" and full2: "columnFull g2 x"
    using fillColumn_inv[OF wf1 x es emp1, of rnd n] by auto
  have "\<forall>x'<GRID_SIZE. x' \<notin> set xs \<longrightarrow> columnFull g2 x'"
  proof (intro allI impI)
    fix x' assume x': "x' < GRID_SIZE" "x' \<notin> set xs"
    show "columnFull g2 x'"
    proof (cases "x' = x")
      case True then show ?thesis using full2 by simp
    next
      case False
      then have "columnFull g x'" using Cons.prems(3) x' by simp
      then show ?thesis
        using same1 same2 False x' Cons.prems(1) wf2
        by (simp add: columnFull_iff sameElsewhere_def)
    qed
  qed
  then have "\<exists>g'. cascadeColumns rnd xs g2 n' = Inr g' \<and> wfGrid g'
           \<and> (dotsColoured g2 \<longrightarrow> dotsColoured g')
           \<and> (\<forall>x<GRID_SIZE. columnFull g' x)"
    using wf2 Cons.prems(2) by (intro Cons.IH) auto
  then show ?case using fall fill col1 col2 by auto
qed

lemma cascade_fills:
  assumes "wfGrid g"
  shows "\<exists>g'. cascade rnd g = Inr g' \<and> wfGrid g' \<and> noEmptyCell g'
           \<and> (dotsColoured g \<longrightarrow> allColoured g')"
proof -
  have "\<exists>g'. cascadeColumns rnd [0..<GRID_SIZE] g 0 = Inr g' \<and> wfGrid g'
           \<and> (dotsColoured g \<longrightarrow> dotsColoured g')
           \<and> (\<forall>x<GRID_SIZE. columnFull g' x)"
    using assms by (intro cascadeColumns_inv) auto
  then obtain g' where g': "cascade rnd g = Inr g'" "wfGrid g'"
    "dotsColoured g \<longrightarrow> dotsColoured g'" "\<forall>x<GRID_SIZE. columnFull g' x"
    unfolding cascade_def by blast
  have "noEmptyCell g'"
    using g'(2,4) by (auto simp: noEmptyCell_iff columnFull_iff)
  moreover have "dotsColoured g \<longrightarrow> allColoured g'"
    using g'(2,3) \<open>noEmptyCell g'\<close> by (auto simp: noEmptyCell_iff allColoured_iff dotsColoured_iff)
  ultimately show ?thesis using g' by blast
qed

lemma dotsInColumn_full:
  "wfGrid g \<Longrightarrow> noEmptyCell g \<Longrightarrow> x < GRID_SIZE \<Longrightarrow> dotsInColumn g x = GRID_SIZE"
proof -
  assume a: "wfGrid g" "noEmptyCell g" "x < GRID_SIZE"
  have "\<forall>c \<in> set (column g x). \<not> isEmpty c"
    using a by (auto simp: column_def noEmptyCell_iff wfGrid_def in_set_conv_nth)
  then have "filter (\<lambda>c. \<not> isEmpty c) (column g x) = column g x"
    by (simp add: filter_id_conv)
  then show ?thesis using a(1) by (simp add: dotsInColumn_def column_def wfGrid_def)
qed


section \<open>Runs\<close>

lemma reachable_run: "reachable s \<Longrightarrow> run rnd evs s = Inr s' \<Longrightarrow> reachable s'"
  by (induction evs arbitrary: s) (auto split: sum.splits intro: reachable.step)

lemma run_walkDown: "run stripes walkDown (initializeGrid stripes) = Inr walkedDown"
  unfolding walkedDown_def by code_simp

lemma reachable_walkedDown: "reachable walkedDown"
  using reachable_run[OF reachable.init run_walkDown] .

lemma step_committed: "step allRed TimerFired walkedDown = Inr committed"
  unfolding committed_def by code_simp

lemma reachable_committed: "reachable committed"
  using reachable.step[OF reachable_walkedDown step_committed] .

section \<open>Dots per column after the cascade\<close>

text \<open>
  C4, as the code has it: after the cascade every column of the grid holds exactly
  \<open>GRID_SIZE\<close> dots; the column of the character is no exception, since the cascade
  refills every empty cell.
\<close>

theorem cascade_fills_columns:
  assumes "wfGrid g"
  shows "\<exists>g'. cascade rnd g = Inr g' \<and> (\<forall>x<GRID_SIZE. dotsInColumn g' x = GRID_SIZE)"
  using cascade_fills[OF assms, of rnd] by (auto simp: dotsInColumn_full)

theorem cascade_fills_columns_witness:
  "wfGrid clearedGrid \<and> (3::nat) < GRID_SIZE
   \<and> (\<exists>g'. cascade allRed clearedGrid = Inr g' \<and> dotsInColumn g' 3 = GRID_SIZE)"
proof -
  have wf: "wfGrid clearedGrid" by code_simp
  have lt: "(3::nat) < GRID_SIZE" by (simp add: GRID_SIZE_def)
  show ?thesis using wf lt cascade_fills_columns[OF wf, of allRed] by blast
qed

text \<open>
  In the example game the character ends on \<open>(3, 5)\<close>, and after the commit its column
  holds \<open>GRID_SIZE\<close> dots, not \<open>GRID_SIZE - 1\<close>: the character's cell holds a dot.
\<close>

theorem character_column_full_counterexample:
  "reachable committed
   \<and> characterPos committed = \<lparr>px = 3, py = 5\<rparr>
   \<and> dotsInColumn (grid committed) 3 \<noteq> GRID_SIZE - 1
   \<and> dotAt (grid committed) (characterPos committed)"
proof -
  have "characterPos committed = \<lparr>px = 3, py = 5\<rparr>" by code_simp
  moreover have "dotsInColumn (grid committed) 3 \<noteq> GRID_SIZE - 1" by code_simp
  moreover have "dotAt (grid committed) (characterPos committed)" by code_simp
  ultimately show ?thesis using reachable_committed by simp
qed

section \<open>The cells the commit marks\<close>

lemma cellAtPos_wf:
  "wfGrid g \<Longrightarrow> inGrid p \<Longrightarrow> cellAtPos g p = Some (g ! nat (py p) ! nat (px p))"
  by (auto simp: cellAtPos_def inGrid_def cellAt_wf nat_less_iff)

lemma cellAtPos_inGrid: "wfGrid g \<Longrightarrow> cellAtPos g p = Some c \<Longrightarrow> inGrid p"
  by (auto simp: cellAtPos_def cellAt_def inGrid_def wfGrid_def list_all_length split: if_splits)

lemma posOf_eq: "inGrid p \<Longrightarrow> (posOf y x = p) = (y = nat (py p) \<and> x = nat (px p))"
  by (cases p) (auto simp: posOf_def inGrid_def)

lemma setIsEmpty_wf:
  assumes "wfGrid g" "inGrid p"
  shows "\<exists>g'. setIsEmpty g p b = Inr g' \<and> wfGrid g'
           \<and> (\<forall>y x. g' ! y ! x = (if posOf y x = p then (g ! y ! x)\<lparr>isEmpty := b\<rparr> else g ! y ! x))"
proof -
  have lt: "nat (py p) < GRID_SIZE" "nat (px p) < GRID_SIZE"
    using assms(2) by (auto simp: inGrid_def nat_less_iff)
  show ?thesis
    using assms lt
    by (simp add: setIsEmpty_def cellAtPos_wf wfGrid_setCell nth_setCell posOf_eq)
qed

lemma clearPath_wf:
  assumes "wfGrid g" "list_all inGrid ps"
  shows "\<exists>g'. clearPath ps g = Inr g' \<and> wfGrid g'
           \<and> (\<forall>y x. g' ! y ! x = (if posOf y x \<in> set ps then (g ! y ! x)\<lparr>isEmpty := True\<rparr> else g ! y ! x))"
  using assms
proof (induction ps arbitrary: g)
  case Nil
  then show ?case by simp
next
  case (Cons p ps)
  obtain g1 where g1: "setIsEmpty g p True = Inr g1" "wfGrid g1"
    "\<forall>y x. g1 ! y ! x = (if posOf y x = p then (g ! y ! x)\<lparr>isEmpty := True\<rparr> else g ! y ! x)"
    using setIsEmpty_wf[of g p True] Cons.prems by auto
  obtain g' where g': "clearPath ps g1 = Inr g'" "wfGrid g'"
    "\<forall>y x. g' ! y ! x = (if posOf y x \<in> set ps then (g1 ! y ! x)\<lparr>isEmpty := True\<rparr> else g1 ! y ! x)"
    using Cons.IH[OF g1(2)] Cons.prems(2) by auto
  show ?case using g1 g' by auto
qed

lemma commitPath_wf:
  assumes "wfGrid g" "list_all inGrid ps" "inGrid cp"
  shows "\<exists>g'. commitPath ps cp g = Inr g' \<and> wfGrid g'
           \<and> (\<forall>y x. g' ! y ! x =
                 (if posOf y x = cp then (g ! y ! x)\<lparr>isEmpty := False\<rparr>
                  else if posOf y x \<in> set ps then (g ! y ! x)\<lparr>isEmpty := True\<rparr>
                  else g ! y ! x))"
proof -
  obtain g1 where g1: "clearPath ps g = Inr g1" "wfGrid g1"
    "\<forall>y x. g1 ! y ! x = (if posOf y x \<in> set ps then (g ! y ! x)\<lparr>isEmpty := True\<rparr> else g ! y ! x)"
    using clearPath_wf[OF assms(1,2)] by auto
  obtain g' where g': "setIsEmpty g1 cp False = Inr g'" "wfGrid g'"
    "\<forall>y x. g' ! y ! x = (if posOf y x = cp then (g1 ! y ! x)\<lparr>isEmpty := False\<rparr> else g1 ! y ! x)"
    using setIsEmpty_wf[OF g1(2) assms(3), of False] by auto
  show ?thesis using g1 g' by (auto simp: commitPath_def)
qed

lemma commitPath_allColoured:
  assumes "wfGrid g" "list_all inGrid ps" "inGrid cp" "allColoured g"
    and "commitPath ps cp g = Inr g'"
  shows "wfGrid g' \<and> allColoured g'"
proof -
  obtain g2 where g2: "commitPath ps cp g = Inr g2" "wfGrid g2"
      "\<forall>y x. g2 ! y ! x =
                 (if posOf y x = cp then (g ! y ! x)\<lparr>isEmpty := False\<rparr>
                  else if posOf y x \<in> set ps then (g ! y ! x)\<lparr>isEmpty := True\<rparr>
                  else g ! y ! x)"
    using commitPath_wf[OF assms(1,2,3)] by auto
  have "g2 = g'" using g2(1) assms(5) by simp
  moreover have "allColoured g2"
    using assms(1,4) g2(2,3) by (simp add: allColoured_iff)
  ultimately show ?thesis using g2(2) by simp
qed

lemma emptyAt_nth: "wfGrid g \<Longrightarrow> inGrid p \<Longrightarrow> emptyAt g p = isEmpty (g ! nat (py p) ! nat (px p))"
  by (simp add: emptyAt_def cellAtPos_wf)

lemma dotAt_nth: "wfGrid g \<Longrightarrow> inGrid p \<Longrightarrow> dotAt g p = (\<not> isEmpty (g ! nat (py p) ! nat (px p)))"
  by (simp add: dotAt_def cellAtPos_wf)

lemma posOf_nat: "inGrid p \<Longrightarrow> posOf (nat (py p)) (nat (px p)) = p"
  by (simp add: posOf_eq)



section \<open>Reachable states\<close>

lemma allColoured_initialGrid: "allColoured (initialGrid rnd)"
  by (simp add: allColoured_def initialGrid_def list_all_iff isStr_def)

lemma wfGrid_initialGrid: "wfGrid (initialGrid rnd)"
  by (simp add: wfGrid_def initialGrid_def list_all_iff)

lemma inGrid_centerPos: "inGrid centerPos"
  by (simp add: inGrid_def centerPos_def CENTER_def GRID_SIZE_def)

lemma stateInv_initializeGrid: "stateInv (initializeGrid rnd)"
proof -
  let ?g = "initialGrid rnd"
  let ?g' = "setCell ?g CENTER CENTER ((?g ! CENTER ! CENTER)\<lparr>isEmpty := True\<rparr>)"
  have c: "CENTER < GRID_SIZE" by (simp add: CENTER_def GRID_SIZE_def)
  have wf: "wfGrid ?g'" by (simp add: wfGrid_setCell wfGrid_initialGrid)
  have "allColoured ?g'"
    using allColoured_initialGrid[of rnd] wfGrid_initialGrid[of rnd] wf c
    by (simp add: allColoured_iff nth_setCell)
  then show ?thesis
    using wf inGrid_centerPos
    by (simp add: stateInv_def pathInv_def walkInv_def initializeGrid_def Let_def)
qed

lemma handleCellClick_cases:
  assumes "handleCellClick s x y = Inr s'"
  shows "s' = s
       \<or> (\<exists>c. cellAtPos (grid s) \<lparr>px = x, py = y\<rparr> = Some c \<and> \<not> isEmpty c
             \<and> length (path s) = 1 \<and> isAdjacent (last (path s)) \<lparr>px = x, py = y\<rparr>
             \<and> s' = s\<lparr>path := path s @ [\<lparr>px = x, py = y\<rparr>], selectedColor := color c\<rparr>)
       \<or> (\<exists>c. cellAtPos (grid s) \<lparr>px = x, py = y\<rparr> = Some c \<and> \<not> isEmpty c
             \<and> length (path s) \<noteq> 1 \<and> color c = selectedColor s
             \<and> \<lparr>px = x, py = y\<rparr> \<notin> set (path s)
             \<and> s' = s\<lparr>path := path s @ [\<lparr>px = x, py = y\<rparr>]\<rparr>)"
  using assms
  by (auto simp: handleCellClick_def pos_in_path split: option.splits if_splits)

lemma pathInv_handleCellClick:
  assumes "pathInv s" "handleCellClick s x y = Inr s'"
  shows "pathInv s' \<and> grid s' = grid s \<and> characterPos s' = characterPos s
         \<and> isAnimating s' = isAnimating s \<and> animStep s' = animStep s
         \<and> (s' = s \<or> (\<exists>p. path s' = path s @ [p]))"
proof -
  let ?p = "\<lparr>px = x, py = y\<rparr>"
  consider (same) "s' = s"
    | (first) c where "cellAtPos (grid s) ?p = Some c" "\<not> isEmpty c"
        "length (path s) = 1" "isAdjacent (last (path s)) ?p"
        "s' = s\<lparr>path := path s @ [?p], selectedColor := color c\<rparr>"
    | (more) c where "cellAtPos (grid s) ?p = Some c" "\<not> isEmpty c"
        "length (path s) \<noteq> 1" "color c = selectedColor s" "?p \<notin> set (path s)"
        "s' = s\<lparr>path := path s @ [?p]\<rparr>"
    using handleCellClick_cases[OF assms(2)] by blast
  then show ?thesis
  proof cases
    case same
    then show ?thesis using assms(1) by simp
  next
    case first
    from first(3) obtain a where a: "path s = [a]" by (cases "path s") auto
    have wf: "wfGrid (grid s)" and col: "allColoured (grid s)"
      using assms(1) by (simp_all add: pathInv_def)
    have ing: "inGrid ?p" using cellAtPos_inGrid[OF wf first(1)] .
    have "c = grid s ! nat y ! nat x" using cellAtPos_wf[OF wf ing] first(1) by simp
    moreover have "nat y < GRID_SIZE" "nat x < GRID_SIZE"
      using ing by (auto simp: inGrid_def nat_less_iff)
    ultimately have str: "isStr (color c)" using col wf by (simp add: allColoured_iff)
    have ne: "a \<noteq> ?p" using first(4) a not_isAdjacent_self[of a] by auto
    show ?thesis
      using assms(1) first a ing str ne
      by (auto simp: pathInv_def isStr_def split: jsval.splits)
  next
    case more
    have wf: "wfGrid (grid s)" using assms(1) by (simp add: pathInv_def)
    have ing: "inGrid ?p" using cellAtPos_inGrid[OF wf more(1)] .
    have ne: "path s \<noteq> []" using assms(1) by (simp add: pathInv_def)
    then have len: "1 < length (path s)" using more(3) by (cases "path s") auto
    have tl: "tl (path s @ [?p]) = tl (path s) @ [?p]" using ne by simp
    show ?thesis
      using assms(1) more ing ne len tl
      by (auto simp: pathInv_def)
  qed
qed


lemma pathInv_isDragging: "pathInv (s\<lparr>isDragging := b\<rparr>) = pathInv s"
  by (simp add: pathInv_def)

lemma dispatch_inv:
  assumes "stateInv s" "dispatch ev s = Inr s'"
  shows "pathInv s' \<and> grid s' = grid s \<and> characterPos s' = characterPos s
         \<and> (isAnimating s' \<longrightarrow> 1 < length (path s'))
         \<and> (isAnimating s \<longrightarrow> isAnimating s')"
proof -
  have pI: "pathInv s" and wI: "walkInv s" using assms(1) by (simp_all add: stateInv_def)
  have click: "pathInv t \<and> grid t = grid s \<and> characterPos t = characterPos s
         \<and> (isAnimating t \<longrightarrow> 1 < length (path t))
         \<and> (isAnimating s \<longrightarrow> isAnimating t)" if "handleCellClick s x y = Inr t" for x y t
    using pathInv_handleCellClick[OF pI that] wI by (auto simp: walkInv_def)
  have keep: "pathInv s \<and> grid s = grid s \<and> characterPos s = characterPos s
         \<and> (isAnimating s \<longrightarrow> 1 < length (path s))
         \<and> (isAnimating s \<longrightarrow> isAnimating s)"
    using pI wI by (simp add: walkInv_def)
  have drag: "pathInv (t\<lparr>isDragging := b\<rparr>) \<and> grid (t\<lparr>isDragging := b\<rparr>) = grid s
         \<and> characterPos (t\<lparr>isDragging := b\<rparr>) = characterPos s
         \<and> (isAnimating (t\<lparr>isDragging := b\<rparr>) \<longrightarrow> 1 < length (path (t\<lparr>isDragging := b\<rparr>)))
         \<and> (isAnimating s \<longrightarrow> isAnimating (t\<lparr>isDragging := b\<rparr>))"
    if "pathInv t \<and> grid t = grid s \<and> characterPos t = characterPos s
         \<and> (isAnimating t \<longrightarrow> 1 < length (path t))
         \<and> (isAnimating s \<longrightarrow> isAnimating t)" for t b
    using that by (simp add: pathInv_isDragging)
  have ne: "path s \<noteq> []" using pI by (simp add: pathInv_def)
  show ?thesis
  proof (cases ev)
    case (CellClick x y)
    then show ?thesis using assms(2) click keep by (auto split: if_splits)
  next
    case (CellMouseDown x y)
    then show ?thesis
      using assms(2) click keep drag
      by (auto simp: handleCellMouseDown_def split: if_splits sum.splits)
  next
    case (CellMouseEnter x y)
    then show ?thesis
      using assms(2) click keep by (auto simp: handleCellMouseEnter_def split: if_splits)
  next
    case (CellTouchStart x y)
    then show ?thesis
      using assms(2) click keep drag
      by (auto simp: handleCellTouchStart_def split: if_splits sum.splits)
  next
    case (GridTouchMove x y)
    then show ?thesis
      using assms(2) click keep by (auto simp: handleCellTouchMove_def split: if_splits)
  next
    case MouseUp
    then show ?thesis using assms(2) drag[OF keep] by (auto simp: handleMouseUp_def)
  next
    case TouchEnd
    then show ?thesis using assms(2) drag[OF keep] by (auto simp: handleTouchEnd_def)
  next
    case GridMouseLeave
    then show ?thesis using assms(2) drag[OF keep] by (auto simp: handleMouseUp_def)
  next
    case ConfirmClick
    have "1 < length (path s)" if "length (path s) \<noteq> 1"
      using ne that by (cases "path s") auto
    then show ?thesis
      using ConfirmClick assms(2) keep
      by (auto simp: confirmPath_def pathInv_def split: if_splits)
  next
    case CancelClick
    then show ?thesis
      using assms(2) keep by (auto simp: cancelPath_def pathInv_def split: if_splits)
  next
    case TimerFired
    then show ?thesis
      using assms(2) keep by (auto simp: pathInv_def split: if_splits)
  qed
qed

lemma walkInv_deps:
  "deps s' = deps s \<Longrightarrow> characterPos s' = characterPos s \<Longrightarrow> walkInv s' = walkInv s"
  by (simp add: deps_def walkInv_def)

lemma animationEffect_inv:
  assumes "pathInv s" "isAnimating s \<longrightarrow> 1 < length (path s)"
  shows "\<exists>s'. animationEffect rnd s = Inr s' \<and> stateInv s'
           \<and> (isAnimating s \<and> \<not> isAnimating s' \<longrightarrow> noEmptyCell (grid s'))"
proof -
  have wf: "wfGrid (grid s)" and col: "allColoured (grid s)"
    and ing: "list_all inGrid (path s)" and cp: "inGrid (characterPos s)"
    using assms(1) by (simp_all add: pathInv_def)
  consider (idle) "\<not> isAnimating s"
    | (commit) "isAnimating s" "length (path s) \<le> animStep s"
    | (walk) "isAnimating s" "animStep s < length (path s)"
    by linarith
  then show ?thesis
  proof cases
    case idle
    then show ?thesis
      using assms(1) by (simp add: animationEffect_def stateInv_def walkInv_def)
  next
    case commit
    obtain g1 where g1: "commitPath (path s) (characterPos s) (grid s) = Inr g1"
      using commitPath_wf[OF wf ing cp] by blast
    have g1': "wfGrid g1" "allColoured g1"
      using commitPath_allColoured[OF wf ing cp col g1] by simp_all
    then have "dotsColoured g1"
      by (simp add: allColoured_iff dotsColoured_iff)
    then obtain g2 where g2: "cascade rnd g1 = Inr g2" "wfGrid g2" "noEmptyCell g2" "allColoured g2"
      using cascade_fills[OF g1'(1), of rnd] by blast
    show ?thesis
      using commit assms(2) g1 g2 cp
      by (simp add: animationEffect_def stateInv_def walkInv_def pathInv_def)
  next
    case walk
    have "inGrid (path s ! animStep s)"
      using ing walk(2) by (simp add: list_all_length)
    then show ?thesis
      using walk assms
      by (simp add: animationEffect_def stateInv_def walkInv_def pathInv_def)
  qed
qed

lemma stateInv_step:
  assumes "stateInv s" "step rnd ev s = Inr s'"
  shows "stateInv s'"
proof -
  obtain s1 where s1: "dispatch ev s = Inr s1"
    using assms(2) by (auto simp: step_def split: sum.splits)
  have d: "pathInv s1" "characterPos s1 = characterPos s" "isAnimating s1 \<longrightarrow> 1 < length (path s1)"
    using dispatch_inv[OF assms(1) s1] by simp_all
  show ?thesis
  proof (cases "deps s1 = deps s")
    case True
    then have "s' = s1" using assms(2) s1 by (simp add: step_def)
    moreover have "walkInv s1"
      using walkInv_deps[OF True d(2)] assms(1) by (simp add: stateInv_def)
    ultimately show ?thesis using d(1) by (simp add: stateInv_def)
  next
    case False
    then have "animationEffect rnd s1 = Inr s'" using assms(2) s1 by (simp add: step_def)
    then show ?thesis using animationEffect_inv[OF d(1) d(3), of rnd] by auto
  qed
qed

lemma reachable_stateInv: "reachable s \<Longrightarrow> stateInv s"
  by (induction rule: reachable.induct) (auto intro: stateInv_initializeGrid stateInv_step)


lemma reachable_pathBuilt: "reachable pathBuilt"
proof -
  have "run stripes [CellClick 3 4, CellClick 3 5] (initializeGrid stripes) = Inr pathBuilt"
    unfolding pathBuilt_def by code_simp
  then show ?thesis using reachable_run[OF reachable.init] by blast
qed

section \<open>Confirm\<close>

text \<open>
  C7: confirming a path of length 1 changes nothing, and a confirm takes a state that is
  not animating to an animating one only when the path has more than one element: this
  holds for a click on the Confirm button in any state, and for \<open>confirmPath\<close> itself
  in every reachable state.
\<close>

theorem confirm_length_one:
  "(length (path s) = 1 \<longrightarrow> confirmPath s = s \<and> dispatch ConfirmClick s = Inr s)
   \<and> (\<not> isAnimating s \<and> dispatch ConfirmClick s = Inr s' \<and> isAnimating s'
        \<longrightarrow> 1 < length (path s))
   \<and> (reachable s \<and> \<not> isAnimating s \<and> isAnimating (confirmPath s)
        \<longrightarrow> 1 < length (path s))"
proof -
  have "1 < length (path s)" if "reachable s" "isAnimating (confirmPath s)" "\<not> isAnimating s"
  proof -
    have "path s \<noteq> []"
      using reachable_stateInv[OF that(1)] by (simp add: stateInv_def pathInv_def)
    moreover have "length (path s) \<noteq> 1"
      using that(2,3) by (auto simp: confirmPath_def split: if_splits)
    ultimately show ?thesis by (cases "path s") auto
  qed
  moreover have "1 < length (path s)"
    if "\<not> isAnimating s" "dispatch ConfirmClick s = Inr s'" "isAnimating s'"
    using that by (cases "path s") (auto simp: confirmPath_def split: if_splits)
  moreover have "confirmPath s = s \<and> dispatch ConfirmClick s = Inr s" if "length (path s) = 1"
    using that by (simp add: confirmPath_def)
  ultimately show ?thesis by blast
qed

theorem confirm_length_one_witness:
  "length (path (initializeGrid stripes)) = 1
   \<and> confirmPath (initializeGrid stripes) = initializeGrid stripes
   \<and> dispatch ConfirmClick (initializeGrid stripes) = Inr (initializeGrid stripes)
   \<and> reachable pathBuilt
   \<and> \<not> isAnimating pathBuilt
   \<and> dispatch ConfirmClick pathBuilt = Inr (confirmPath pathBuilt)
   \<and> isAnimating (confirmPath pathBuilt)
   \<and> 1 < length (path pathBuilt)"
proof -
  have p1: "length (path (initializeGrid stripes)) = 1" by code_simp
  have p3: "path pathBuilt = [\<lparr>px = 3, py = 3\<rparr>, \<lparr>px = 3, py = 4\<rparr>, \<lparr>px = 3, py = 5\<rparr>]"
    by code_simp
  have a3: "\<not> isAnimating pathBuilt" by code_simp
  have d: "dispatch ConfirmClick pathBuilt = Inr (confirmPath pathBuilt)"
    using p3 a3 by simp
  have a: "isAnimating (confirmPath pathBuilt)"
    using p3 a3 by (simp add: confirmPath_def)
  show ?thesis
    using confirm_length_one[of "initializeGrid stripes"]
      confirm_length_one[of pathBuilt "confirmPath pathBuilt"] p1 p3 a3 d a reachable_pathBuilt
    by simp
qed

section \<open>The path\<close>



























section \<open>The commit step\<close>

text \<open>
  C2 fails on the code. The commit step (lines 72 to 77) sets \<open>isEmpty = true\<close> on the
  cell of every path position and then \<open>isEmpty = false\<close> on the cell at \<open>characterPos\<close>.
  In the example game the character stands on \<open>path.last = (3, 5)\<close> when the commit
  runs, so after the commit step the cell at \<open>path.last\<close> is not empty: it holds its red
  dot again.
\<close>

theorem commit_keeps_last_dot:
  "reachable walkedDown \<and> isAnimating walkedDown
   \<and> 1 < length (path walkedDown)
   \<and> last (path walkedDown) = \<lparr>px = 3, py = 5\<rparr>
   \<and> commitPath (path walkedDown) (characterPos walkedDown) (grid walkedDown) = Inr clearedGrid
   \<and> cellAtPos clearedGrid \<lparr>px = 3, py = 5\<rparr> = Some \<lparr>color = Str Red, isEmpty = False\<rparr>
   \<and> \<not> emptyAt clearedGrid (last (path walkedDown))"
proof -
  have "isAnimating walkedDown" by code_simp
  moreover have "1 < length (path walkedDown)" by code_simp
  moreover have "last (path walkedDown) = \<lparr>px = 3, py = 5\<rparr>" by code_simp
  moreover have "commitPath (path walkedDown) (characterPos walkedDown) (grid walkedDown) = Inr clearedGrid"
    unfolding clearedGrid_def by code_simp
  moreover have "cellAtPos clearedGrid \<lparr>px = 3, py = 5\<rparr> = Some \<lparr>color = Str Red, isEmpty = False\<rparr>"
    by code_simp
  moreover have "\<not> emptyAt clearedGrid (last (path walkedDown))" by code_simp
  ultimately show ?thesis using reachable_walkedDown by simp
qed

text \<open>
  The same happens at every commit: when the last timer of an animation is about to fire,
  the path has more than one element and the character stands on its last position, so the
  commit step leaves every path cell but the last empty and the cell at \<open>path.last\<close> with
  a dot.
\<close>

lemma commit_marks_path:
  assumes "reachable s" "isAnimating s" "Suc (animStep s) = length (path s)"
  shows "1 < length (path s) \<and> characterPos s = last (path s)
       \<and> (\<exists>g'. commitPath (path s) (characterPos s) (grid s) = Inr g'
             \<and> (\<forall>p \<in> set (butlast (path s)). emptyAt g' p)
             \<and> dotAt g' (last (path s)))"
proof -
  have inv: "stateInv s" using reachable_stateInv[OF assms(1)] .
  have wf: "wfGrid (grid s)" and ing: "list_all inGrid (path s)"
    and cp: "inGrid (characterPos s)" and ne: "path s \<noteq> []" and dist: "distinct (path s)"
    using inv by (simp_all add: stateInv_def pathInv_def)
  have w: "1 < length (path s)" "characterPos s = path s ! animStep s"
    using inv assms(2) by (simp_all add: stateInv_def walkInv_def)
  have "animStep s = length (path s) - 1" using assms(3) by simp
  then have lastp: "characterPos s = last (path s)"
    using w(2) ne by (simp add: last_conv_nth)
  obtain g' where g': "commitPath (path s) (characterPos s) (grid s) = Inr g'" "wfGrid g'"
    "\<forall>y x. g' ! y ! x =
        (if posOf y x = characterPos s then (grid s ! y ! x)\<lparr>isEmpty := False\<rparr>
         else if posOf y x \<in> set (path s) then (grid s ! y ! x)\<lparr>isEmpty := True\<rparr>
         else grid s ! y ! x)"
    using commitPath_wf[OF wf ing cp] by blast
  have "dotAt g' (last (path s))"
    using g'(2,3) cp lastp by (simp add: dotAt_nth posOf_nat)
  moreover have "emptyAt g' p" if "p \<in> set (butlast (path s))" for p
  proof -
    have "path s = butlast (path s) @ [last (path s)]" using ne by simp
    then have "distinct (butlast (path s) @ [last (path s)])" using dist by simp
    then have "p \<noteq> last (path s)" using that by auto
    moreover have "p \<in> set (path s)" using that by (rule in_set_butlastD)
    moreover from this have "inGrid p" using ing by (simp add: list_all_iff)
    ultimately show ?thesis
      using g'(2,3) lastp by (simp add: emptyAt_nth posOf_nat)
  qed
  ultimately show ?thesis using w(1) lastp g'(1) by blast
qed

section \<open>The fall of a column\<close>

text \<open>
  C1 fails on the code. In the example game column 3 has, after the commit step, two
  empty rows (3 and 4) below three dots (rows 0 to 2). The fall moves the red dot of row 2
  to row 4, and then, because the vacated row is put at the front of \<open>emptySpaces\<close>, the
  green dot of row 1 to row 2 and the blue dot of row 0 to row 1: row 3 stays empty below
  the dots of rows 1 and 2, \<open>emptySpaces\<close> ends as \<open>[0, 3]\<close>, and the refill puts a new
  dot into row 3, under two dots that were there before.
\<close>

theorem fallColumn_leaves_gap:
  "reachable walkedDown
   \<and> commitPath (path walkedDown) (characterPos walkedDown) (grid walkedDown) = Inr clearedGrid
   \<and> column clearedGrid 3 =
       [\<lparr>color = Str Blue, isEmpty = False\<rparr>, \<lparr>color = Str Green, isEmpty = False\<rparr>,
        \<lparr>color = Str Red, isEmpty = False\<rparr>, \<lparr>color = Str Red, isEmpty = True\<rparr>,
        \<lparr>color = Str Red, isEmpty = True\<rparr>, \<lparr>color = Str Red, isEmpty = False\<rparr>,
        \<lparr>color = Str Blue, isEmpty = False\<rparr>]
   \<and> fallColumn 3 (rev [0..<GRID_SIZE]) clearedGrid [] = Inr (fallenGrid, [0, 3])
   \<and> column fallenGrid 3 =
       [\<lparr>color = Undefined, isEmpty = True\<rparr>, \<lparr>color = Str Blue, isEmpty = False\<rparr>,
        \<lparr>color = Str Green, isEmpty = False\<rparr>, \<lparr>color = Str Red, isEmpty = True\<rparr>,
        \<lparr>color = Str Red, isEmpty = False\<rparr>, \<lparr>color = Str Red, isEmpty = False\<rparr>,
        \<lparr>color = Str Blue, isEmpty = False\<rparr>]
   \<and> step allRed TimerFired walkedDown = Inr committed
   \<and> column (grid committed) 3 =
       [\<lparr>color = Str Red, isEmpty = False\<rparr>, \<lparr>color = Str Blue, isEmpty = False\<rparr>,
        \<lparr>color = Str Green, isEmpty = False\<rparr>, \<lparr>color = Str Red, isEmpty = False\<rparr>,
        \<lparr>color = Str Red, isEmpty = False\<rparr>, \<lparr>color = Str Red, isEmpty = False\<rparr>,
        \<lparr>color = Str Blue, isEmpty = False\<rparr>]"
proof -
  have "commitPath (path walkedDown) (characterPos walkedDown) (grid walkedDown) = Inr clearedGrid"
    unfolding clearedGrid_def by code_simp
  moreover have "column clearedGrid 3 =
       [\<lparr>color = Str Blue, isEmpty = False\<rparr>, \<lparr>color = Str Green, isEmpty = False\<rparr>,
        \<lparr>color = Str Red, isEmpty = False\<rparr>, \<lparr>color = Str Red, isEmpty = True\<rparr>,
        \<lparr>color = Str Red, isEmpty = True\<rparr>, \<lparr>color = Str Red, isEmpty = False\<rparr>,
        \<lparr>color = Str Blue, isEmpty = False\<rparr>]"
    by code_simp
  moreover have "fallColumn 3 (rev [0..<GRID_SIZE]) clearedGrid [] = Inr (fallenGrid, [0, 3])"
    unfolding fallenGrid_def by code_simp
  moreover have "column fallenGrid 3 =
       [\<lparr>color = Undefined, isEmpty = True\<rparr>, \<lparr>color = Str Blue, isEmpty = False\<rparr>,
        \<lparr>color = Str Green, isEmpty = False\<rparr>, \<lparr>color = Str Red, isEmpty = True\<rparr>,
        \<lparr>color = Str Red, isEmpty = False\<rparr>, \<lparr>color = Str Red, isEmpty = False\<rparr>,
        \<lparr>color = Str Blue, isEmpty = False\<rparr>]"
    by code_simp
  moreover have "column (grid committed) 3 =
       [\<lparr>color = Str Red, isEmpty = False\<rparr>, \<lparr>color = Str Blue, isEmpty = False\<rparr>,
        \<lparr>color = Str Green, isEmpty = False\<rparr>, \<lparr>color = Str Red, isEmpty = False\<rparr>,
        \<lparr>color = Str Red, isEmpty = False\<rparr>, \<lparr>color = Str Red, isEmpty = False\<rparr>,
        \<lparr>color = Str Blue, isEmpty = False\<rparr>]"
    by code_simp
  ultimately show ?thesis using reachable_walkedDown step_committed by simp
qed

section \<open>Intents during an animation\<close>

lemma reachable_dragged: "reachable dragged"
proof -
  have "run stripes [CellTouchStart 3 4, ConfirmClick] (initializeGrid stripes) = Inr dragged"
    unfolding dragged_def by code_simp
  then show ?thesis using reachable_run[OF reachable.init] by blast
qed

text \<open>
  C5 fails on the code. \<open>onTouchMove\<close> has no \<open>!isAnimating\<close> guard: in the state
  \<open>dragged\<close>, which is animating, a touch move over the cell \<open>(3, 5)\<close> appends it to
  the path, and the effect runs again and schedules a second timer.
\<close>

theorem touch_move_while_animating:
  "reachable dragged \<and> isAnimating dragged \<and> isDragging dragged
   \<and> path dragged = [\<lparr>px = 3, py = 3\<rparr>, \<lparr>px = 3, py = 4\<rparr>]
   \<and> dispatch (GridTouchMove 3 5) dragged
       = Inr (dragged\<lparr>path := [\<lparr>px = 3, py = 3\<rparr>, \<lparr>px = 3, py = 4\<rparr>, \<lparr>px = 3, py = 5\<rparr>]\<rparr>)
   \<and> step allRed (GridTouchMove 3 5) dragged
       = Inr (dragged\<lparr>path := [\<lparr>px = 3, py = 3\<rparr>, \<lparr>px = 3, py = 4\<rparr>, \<lparr>px = 3, py = 5\<rparr>],
                      timers := 2\<rparr>)"
proof -
  have "isAnimating dragged" by code_simp
  moreover have "isDragging dragged" by code_simp
  moreover have "path dragged = [\<lparr>px = 3, py = 3\<rparr>, \<lparr>px = 3, py = 4\<rparr>]" by code_simp
  moreover have "dispatch (GridTouchMove 3 5) dragged
       = Inr (dragged\<lparr>path := [\<lparr>px = 3, py = 3\<rparr>, \<lparr>px = 3, py = 4\<rparr>, \<lparr>px = 3, py = 5\<rparr>]\<rparr>)"
    by code_simp
  moreover have "step allRed (GridTouchMove 3 5) dragged
       = Inr (dragged\<lparr>path := [\<lparr>px = 3, py = 3\<rparr>, \<lparr>px = 3, py = 4\<rparr>, \<lparr>px = 3, py = 5\<rparr>],
                      timers := 2\<rparr>)"
    by code_simp
  ultimately show ?thesis using reachable_dragged by simp
qed

text \<open>
  The guarded handlers and the two buttons do leave an animating state unchanged.
\<close>

lemma guarded_intents_while_animating:
  assumes "isAnimating s"
  shows "dispatch (CellClick x y) s = Inr s \<and> dispatch (CellMouseDown x y) s = Inr s
       \<and> dispatch (CellMouseEnter x y) s = Inr s \<and> dispatch (CellTouchStart x y) s = Inr s
       \<and> dispatch ConfirmClick s = Inr s \<and> dispatch CancelClick s = Inr s
       \<and> confirmPath s = s"
  using assms by (simp add: confirmPath_def)


end
